theory Spec2Isabelle
  imports Main "HOL-Library.Word" "HOL-Library.Log_Nat"
begin

section \<open>go-rules: a shallow embedding of \<open>rules.go\<close>\<close>

text \<open>
  The package evaluates a rule (an ordered list of field/operator/value conditions combined
  by AND or OR) against a nested \<open>map[string]any\<close>. The embedding follows \<open>rules.go\<close>
  function by function. Go's multiple return values are tuples: a comparator returns
  \<open>(bool, error)\<close>, modelled as \<open>bool \<times> error option\<close> with \<open>None\<close> for a nil error.

  Two functions of Go's standard library are parameters of the model, because their
  behaviour is fixed outside this package: \<open>strconv.ParseFloat(s, 64)\<close>, written \<open>pf\<close>
  (\<open>Some f\<close> when it returns a nil error, \<open>None\<close> otherwise), and the \<open>%v\<close> verb of
  \<open>fmt.Sprintf\<close>, written \<open>fmtV\<close>.
\<close>

subsection \<open>Floating-point values\<close>

text \<open>
  A \<open>float64\<close> is its IEEE 754 binary64 bit pattern: sign, 11 bits of biased exponent,
  52 bits of fraction. A \<open>float32\<close> is the binary32 pattern (8 and 23 bits).
\<close>

datatype float64 = Float64 (sign64: bool) (exp64: "11 word") (frac64: "52 word")

datatype float32 = Float32 (sign32: bool) (exp32: "8 word") (frac32: "23 word")

definition isNaN :: "float64 \<Rightarrow> bool" where
  "isNaN x = (unat (exp64 x) = 2047 \<and> unat (frac64 x) \<noteq> 0)"

text \<open>
  For a value that is not a NaN, \<open>f64_scaled\<close> is the value times \<open>2 ^ 1074\<close>, an integer;
  an infinity gets the magnitude \<open>2 ^ 2098\<close>, above every finite one. Both zeros are 0.
\<close>

definition f64_scaled :: "float64 \<Rightarrow> int" where
  "f64_scaled x =
     (let e = unat (exp64 x); f = unat (frac64 x);
          mag = (if e = 0 then int f else int ((2 ^ 52 + f) * 2 ^ (e - 1)))
      in if sign64 x then - mag else mag)"

text \<open>Go's comparison operators on \<open>float64\<close>: every comparison with a NaN is false.\<close>

definition f64_eq :: "float64 \<Rightarrow> float64 \<Rightarrow> bool" where
  "f64_eq a b = (\<not> isNaN a \<and> \<not> isNaN b \<and> f64_scaled a = f64_scaled b)"

definition f64_gt :: "float64 \<Rightarrow> float64 \<Rightarrow> bool" where
  "f64_gt a b = (\<not> isNaN a \<and> \<not> isNaN b \<and> f64_scaled a > f64_scaled b)"

definition f64_ge :: "float64 \<Rightarrow> float64 \<Rightarrow> bool" where
  "f64_ge a b = (\<not> isNaN a \<and> \<not> isNaN b \<and> f64_scaled a \<ge> f64_scaled b)"

definition f64_lt :: "float64 \<Rightarrow> float64 \<Rightarrow> bool" where
  "f64_lt a b = (\<not> isNaN a \<and> \<not> isNaN b \<and> f64_scaled a < f64_scaled b)"

definition f64_le :: "float64 \<Rightarrow> float64 \<Rightarrow> bool" where
  "f64_le a b = (\<not> isNaN a \<and> \<not> isNaN b \<and> f64_scaled a \<le> f64_scaled b)"

text \<open>
  The conversion \<open>float64(n)\<close> of an integer rounds to the nearest value with a 53-bit
  significand, ties to even. The integers of Go are below \<open>2 ^ 64\<close> in magnitude, so the
  result is always finite. \<open>floorlog 2 a\<close> is the number of bits of \<open>a\<close>.
\<close>

definition float64_of_int :: "int \<Rightarrow> float64" where
  "float64_of_int n =
     (if n = 0 then Float64 False 0 0
      else let a = nat \<bar>n\<bar>; k = floorlog 2 a in
        if k \<le> 53 then Float64 (n < 0) (of_nat (k + 1022)) (of_nat (a * 2 ^ (53 - k) - 2 ^ 52))
        else let sh = k - 53; q = a div 2 ^ sh; r = a mod 2 ^ sh; h = 2 ^ (sh - 1);
                 q' = (if r > h \<or> (r = h \<and> odd q) then q + 1 else q)
             in if q' = 2 ^ 53 then Float64 (n < 0) (of_nat (k + 1023)) 0
                else Float64 (n < 0) (of_nat (k + 1022)) (of_nat (q' - 2 ^ 52)))"

text \<open>
  The conversion \<open>float64(x)\<close> of a \<open>float32\<close> is exact: infinities and NaNs keep their
  class, a subnormal is normalised.
\<close>

definition float64_of_float32 :: "float32 \<Rightarrow> float64" where
  "float64_of_float32 x =
     (let s = sign32 x; e = unat (exp32 x); f = unat (frac32 x) in
      if e = 255 then Float64 s (of_nat 2047) (of_nat (f * 2 ^ 29))
      else if e = 0 then
        (if f = 0 then Float64 s 0 0
         else let k = floorlog 2 f in
           Float64 s (of_nat (k + 873)) (of_nat ((f - 2 ^ (k - 1)) * 2 ^ (53 - k))))
      else Float64 s (of_nat (e + 896)) (of_nat (f * 2 ^ 29)))"

subsection \<open>Dynamic values\<close>

text \<open>
  A value of type \<open>any\<close>: the untyped nil, or a value of one of the dynamic types the
  package looks at. \<open>int\<close> and \<open>uint\<close> are 64 bits wide. A slice or a map may be nil
  (\<open>None\<close>); a map is an association list read with \<open>map_of\<close>.
\<close>

datatype val =
    VNil
  | VBool bool
  | VFloat64 float64
  | VFloat32 float32
  | VInt "64 word"
  | VInt8 "8 word"
  | VInt16 "16 word"
  | VInt32 "32 word"
  | VInt64 "64 word"
  | VUint "64 word"
  | VUint8 "8 word"
  | VUint16 "16 word"
  | VUint32 "32 word"
  | VUint64 "64 word"
  | VString string
  | VSlice "val list option"
  | VMap "(string \<times> val) list option"

type_synonym gomap = "(string \<times> val) list option"

text \<open>The index expression \<open>v, ok := m[p]\<close>; a nil map has no keys.\<close>

definition map_index :: "gomap \<Rightarrow> string \<Rightarrow> val option" where
  "map_index m p = (case m of None \<Rightarrow> None | Some kvs \<Rightarrow> map_of kvs p)"

subsection \<open>Library functions on strings\<close>

text \<open>
  Go strings are byte strings, and so are HOL's. \<open>strings.Split(s, sep)\<close> for a separator
  of one byte: the pieces between the separators, always at least one piece.
\<close>

fun strings_Split :: "string \<Rightarrow> char \<Rightarrow> string list" where
  "strings_Split [] sep = [[]]"
| "strings_Split (c # s) sep =
     (if c = sep then [] # strings_Split s sep
      else (case strings_Split s sep of
              [] \<Rightarrow> [[c]]
            | p # ps \<Rightarrow> (c # p) # ps))"

text \<open>\<open>strings.Contains(s, substr)\<close>: \<open>substr\<close> starts at some position of \<open>s\<close>.\<close>

fun strings_Contains :: "string \<Rightarrow> string \<Rightarrow> bool" where
  "strings_Contains [] substr = (substr = [])"
| "strings_Contains (c # s) substr =
     (take (length substr) (c # s) = substr \<or> strings_Contains s substr)"

text \<open>\<open>strings.Join(parts, sep)\<close>, the inverse of \<open>strings.Split\<close>.\<close>

fun strings_Join :: "string list \<Rightarrow> char \<Rightarrow> string" where
  "strings_Join [] sep = []"
| "strings_Join [p] sep = p"
| "strings_Join (p # q # ps) sep = p @ sep # strings_Join (q # ps) sep"

subsection \<open>\<open>reflect.DeepEqual\<close>\<close>

text \<open>
  \<open>reflect.DeepEqual\<close> on the values above, for values that share no storage: two nils
  are equal, values of different dynamic types are not, floats are compared with \<open>==\<close>
  (so a NaN differs from itself), a nil slice or map differs from an empty one, slices are
  compared element by element, maps key by key. \<open>map_len\<close> is \<open>len\<close> of a map.
\<close>

definition map_len :: "(string \<times> val) list \<Rightarrow> nat" where
  "map_len kvs = length (remdups (map fst kvs))"

function deepEqual :: "val \<Rightarrow> val \<Rightarrow> bool" where
  "deepEqual x y =
     (case (x, y) of
        (VNil, VNil) \<Rightarrow> True
      | (VBool a, VBool b) \<Rightarrow> a = b
      | (VFloat64 a, VFloat64 b) \<Rightarrow> f64_eq a b
      | (VFloat32 a, VFloat32 b) \<Rightarrow> f64_eq (float64_of_float32 a) (float64_of_float32 b)
      | (VInt a, VInt b) \<Rightarrow> a = b
      | (VInt8 a, VInt8 b) \<Rightarrow> a = b
      | (VInt16 a, VInt16 b) \<Rightarrow> a = b
      | (VInt32 a, VInt32 b) \<Rightarrow> a = b
      | (VInt64 a, VInt64 b) \<Rightarrow> a = b
      | (VUint a, VUint b) \<Rightarrow> a = b
      | (VUint8 a, VUint8 b) \<Rightarrow> a = b
      | (VUint16 a, VUint16 b) \<Rightarrow> a = b
      | (VUint32 a, VUint32 b) \<Rightarrow> a = b
      | (VUint64 a, VUint64 b) \<Rightarrow> a = b
      | (VString a, VString b) \<Rightarrow> a = b
      | (VSlice None, VSlice None) \<Rightarrow> True
      | (VSlice (Some xs), VSlice (Some ys)) \<Rightarrow>
          length xs = length ys \<and> list_all (\<lambda>i. deepEqual (xs ! i) (ys ! i)) [0..<length xs]
      | (VMap None, VMap None) \<Rightarrow> True
      | (VMap (Some m1), VMap (Some m2)) \<Rightarrow>
          map_len m1 = map_len m2 \<and>
          list_all (\<lambda>k. case map_of m1 k of
                           None \<Rightarrow> False
                         | Some v1 \<Rightarrow> (case map_of m2 k of
                                         None \<Rightarrow> False
                                       | Some v2 \<Rightarrow> deepEqual v1 v2))
                   (map fst m1)
      | _ \<Rightarrow> False)"
  by pat_completeness auto
termination
proof -
  have m: "size v < Suc (size_list (size_prod (\<lambda>_. 0) size) kvs)"
    if "map_of kvs k = Some v" for kvs :: "(string \<times> val) list" and k v
    using that by (induction kvs) (auto split: if_splits)
  have n: "size (xs ! i) < Suc (size_list size xs)"
    if "i < length xs" for xs :: "val list" and i
    using that size_list_estimation' [of "xs ! i" xs "size (xs ! i)" size] by simp
  show ?thesis
    by (relation "measure (\<lambda>(x, y). size x)") (auto dest: m n)
qed

declare deepEqual.simps [simp del]

subsection \<open>Rules, results, errors and the engine\<close>

type_synonym Operator = string

definition OperatorEQ :: Operator where "OperatorEQ = ''eq''"
definition OperatorNE :: Operator where "OperatorNE = ''ne''"
definition OperatorGT :: Operator where "OperatorGT = ''gt''"
definition OperatorGTE :: Operator where "OperatorGTE = ''gte''"
definition OperatorLT :: Operator where "OperatorLT = ''lt''"
definition OperatorLTE :: Operator where "OperatorLTE = ''lte''"
definition OperatorContains :: Operator where "OperatorContains = ''contains''"
definition OperatorIn :: Operator where "OperatorIn = ''in''"

record Condition =
  Field_c :: string
  Op :: Operator
  Value :: val

type_synonym Logic = string

definition LogicAND :: Logic where "LogicAND = ''and''"
definition LogicOR :: Logic where "LogicOR = ''or''"

record Rule =
  Conditions :: "Condition list"
  Logic :: Logic

record Result =
  Matched :: bool
  Explanation :: string

text \<open>\<open>Result{}\<close>, the zero value.\<close>

definition Result_zero :: Result where
  "Result_zero = \<lparr>Matched = False, Explanation = []\<rparr>"

text \<open>
  The error values of the package: \<open>Errorf m\<close> is \<open>fmt.Errorf(m)\<close> for a constant message;
  \<open>FieldNotFound f\<close> is \<open>fmt.Errorf("field %q not found: %w", f, errors.New("field not found"))\<close>;
  \<open>UnknownOperator o\<close> is \<open>fmt.Errorf("unknown operator %q", o)\<close>; \<open>ContextErr m\<close> is what
  \<open>ctx.Err()\<close> reports for a context that is done.
\<close>

datatype error =
    Errorf string
  | FieldNotFound string
  | UnknownOperator Operator
  | ContextErr string

type_synonym opfn = "val \<Rightarrow> val \<Rightarrow> bool \<times> error option"

record Engine =
  ops :: "Operator \<Rightarrow> opfn option"

subsection \<open>Comparison helpers\<close>

text \<open>\<open>toFloat\<close> returns \<open>(f, true)\<close> as \<open>Some f\<close> and \<open>(0, false)\<close> as \<open>None\<close>.\<close>

fun toFloat :: "(string \<Rightarrow> float64 option) \<Rightarrow> val \<Rightarrow> float64 option" where
  "toFloat pf (VFloat64 x) = Some x"
| "toFloat pf (VFloat32 x) = Some (float64_of_float32 x)"
| "toFloat pf (VInt x) = Some (float64_of_int (sint x))"
| "toFloat pf (VInt8 x) = Some (float64_of_int (sint x))"
| "toFloat pf (VInt16 x) = Some (float64_of_int (sint x))"
| "toFloat pf (VInt32 x) = Some (float64_of_int (sint x))"
| "toFloat pf (VInt64 x) = Some (float64_of_int (sint x))"
| "toFloat pf (VUint x) = Some (float64_of_int (uint x))"
| "toFloat pf (VUint8 x) = Some (float64_of_int (uint x))"
| "toFloat pf (VUint16 x) = Some (float64_of_int (uint x))"
| "toFloat pf (VUint32 x) = Some (float64_of_int (uint x))"
| "toFloat pf (VUint64 x) = Some (float64_of_int (uint x))"
| "toFloat pf (VString x) = (case pf x of Some f \<Rightarrow> Some f | None \<Rightarrow> None)"
| "toFloat pf VNil = None"
| "toFloat pf (VBool x) = None"
| "toFloat pf (VSlice x) = None"
| "toFloat pf (VMap x) = None"

definition equal_any :: "(string \<Rightarrow> float64 option) \<Rightarrow> val \<Rightarrow> val \<Rightarrow> bool" where
  "equal_any pf a b =
     (if deepEqual a b then True
      else (case toFloat pf a of
              Some fa \<Rightarrow> (case toFloat pf b of
                            Some fb \<Rightarrow> f64_eq fa fb
                          | None \<Rightarrow> False)
            | None \<Rightarrow> False))"

definition greater_any :: "(string \<Rightarrow> float64 option) \<Rightarrow> opfn" where
  "greater_any pf a b =
     (case (toFloat pf a, toFloat pf b) of
        (Some fa, Some fb) \<Rightarrow> (f64_gt fa fb, None)
      | _ \<Rightarrow> (False, Some (Errorf ''type mismatch for >'')))"

definition greaterOrEqual :: "(string \<Rightarrow> float64 option) \<Rightarrow> opfn" where
  "greaterOrEqual pf a b =
     (case (toFloat pf a, toFloat pf b) of
        (Some fa, Some fb) \<Rightarrow> (f64_ge fa fb, None)
      | _ \<Rightarrow> (False, Some (Errorf ''type mismatch for >='')))"

definition less_any :: "(string \<Rightarrow> float64 option) \<Rightarrow> opfn" where
  "less_any pf a b =
     (case (toFloat pf a, toFloat pf b) of
        (Some fa, Some fb) \<Rightarrow> (f64_lt fa fb, None)
      | _ \<Rightarrow> (False, Some (Errorf ''type mismatch for <'')))"

definition lessOrEqual :: "(string \<Rightarrow> float64 option) \<Rightarrow> opfn" where
  "lessOrEqual pf a b =
     (case (toFloat pf a, toFloat pf b) of
        (Some fa, Some fb) \<Rightarrow> (f64_le fa fb, None)
      | _ \<Rightarrow> (False, Some (Errorf ''type mismatch for <='')))"

definition contains :: opfn where
  "contains a b =
     (case a of
        VString s \<Rightarrow> (case b of
                       VString search \<Rightarrow> (strings_Contains s search, None)
                     | _ \<Rightarrow> (False, Some (Errorf ''type mismatch for contains'')))
      | _ \<Rightarrow> (False, Some (Errorf ''type mismatch for contains'')))"

text \<open>The loop of \<open>in\<close> over the items of the slice.\<close>

fun in_range :: "(string \<Rightarrow> float64 option) \<Rightarrow> val \<Rightarrow> val list \<Rightarrow> bool \<times> error option" where
  "in_range pf a [] = (False, None)"
| "in_range pf a (item # rest) =
     (if equal_any pf a item then (True, None) else in_range pf a rest)"

definition in_any :: "(string \<Rightarrow> float64 option) \<Rightarrow> opfn" where
  "in_any pf a b =
     (case b of
        VSlice sl \<Rightarrow> in_range pf a (case sl of None \<Rightarrow> [] | Some items \<Rightarrow> items)
      | _ \<Rightarrow> (False, Some (Errorf ''in requires slice value'')))"

subsection \<open>The engine and its built-in operators\<close>

definition registerDefaults :: "(string \<Rightarrow> float64 option) \<Rightarrow> Engine \<Rightarrow> Engine" where
  "registerDefaults pf e =
     e\<lparr>ops := (ops e)
        (OperatorEQ \<mapsto> (\<lambda>a b. (equal_any pf a b, None)),
         OperatorNE \<mapsto> (\<lambda>a b. (\<not> equal_any pf a b, None)),
         OperatorGT \<mapsto> greater_any pf,
         OperatorGTE \<mapsto> (\<lambda>a b. greaterOrEqual pf a b),
         OperatorLT \<mapsto> (\<lambda>a b. less_any pf a b),
         OperatorLTE \<mapsto> (\<lambda>a b. lessOrEqual pf a b),
         OperatorContains \<mapsto> contains,
         OperatorIn \<mapsto> in_any pf)\<rparr>"

definition New :: "(string \<Rightarrow> float64 option) \<Rightarrow> Engine" where
  "New pf = registerDefaults pf \<lparr>ops = Map.empty\<rparr>"

definition Register :: "Engine \<Rightarrow> Operator \<Rightarrow> opfn \<Rightarrow> Engine" where
  "Register e op fn = e\<lparr>ops := (ops e)(op \<mapsto> fn)\<rparr>"

definition Default :: "(string \<Rightarrow> float64 option) \<Rightarrow> Engine" where
  "Default pf = New pf"

subsection \<open>Field lookup\<close>

text \<open>The loop of \<open>getValue\<close> over the parts of the path, from the current value.\<close>

fun getValue_loop :: "val \<Rightarrow> string list \<Rightarrow> val \<times> bool" where
  "getValue_loop cur [] = (cur, True)"
| "getValue_loop cur (p # parts) =
     (case cur of
        VMap m \<Rightarrow> (case map_index m p of
                     None \<Rightarrow> (VNil, False)
                   | Some v \<Rightarrow> getValue_loop v parts)
      | _ \<Rightarrow> (VNil, False))"

definition getValue :: "gomap \<Rightarrow> string \<Rightarrow> val \<times> bool" where
  "getValue data path =
     (if data = None then (VNil, False)
      else getValue_loop (VMap data) (strings_Split path CHR ''.''))"

text \<open>
  The path resolver as the specification words it: a path resolves from a value when every
  segment, in turn, is an existing key of the mapping reached so far; the value reached
  after the last segment is the result.
\<close>

inductive resolves :: "val \<Rightarrow> string list \<Rightarrow> val \<Rightarrow> bool" where
  resolves_done: "resolves v [] v"
| resolves_step: "map_index m p = Some v' \<Longrightarrow> resolves v' ps r \<Longrightarrow> resolves (VMap m) (p # ps) r"

code_pred resolves .

subsection \<open>Evaluation\<close>

text \<open>
  A context is what \<open>ctx.Err()\<close> returns for the duration of the call: \<open>None\<close> for a context
  that is not done, as \<open>context.Background()\<close> always is.

  \<open>fmt.Sprintf("%s %s %v \<rightarrow> %t", c.Field, c.Op, c.Value, matched)\<close>: the arrow is the three bytes
  of its UTF-8 encoding.
\<close>

definition Background :: "error option" where
  "Background = None"

definition arrow :: string where
  "arrow = [CHR 0xE2, CHR 0x86, CHR 0x92]"

definition explain :: "(val \<Rightarrow> string) \<Rightarrow> Condition \<Rightarrow> bool \<Rightarrow> string" where
  "explain fmtV c matched =
     Field_c c @ '' '' @ Op c @ '' '' @ fmtV (Value c) @ '' '' @ arrow @ '' '' @
     (if matched then ''true'' else ''false'')"

definition evalCondition ::
  "(val \<Rightarrow> string) \<Rightarrow> Engine \<Rightarrow> error option \<Rightarrow> Condition \<Rightarrow> gomap \<Rightarrow> bool \<times> string \<times> error option"
where
  "evalCondition fmtV e ctx c data =
     (case ctx of
        Some cerr \<Rightarrow> (False, [], Some cerr)
      | None \<Rightarrow>
          (case getValue data (Field_c c) of
             (v, ok) \<Rightarrow>
               if \<not> ok then (False, [], Some (FieldNotFound (Field_c c)))
               else (case ops e (Op c) of
                       None \<Rightarrow> (False, [], Some (UnknownOperator (Op c)))
                     | Some fn \<Rightarrow>
                         (case fn v (Value c) of
                            (matched, Some err) \<Rightarrow> (False, [], Some err)
                          | (matched, None) \<Rightarrow> (matched, explain fmtV c matched, None)))))"

text \<open>The two loops of \<open>EvaluateWithContext\<close>, with the \<open>return\<close> that follows each.\<close>

fun and_loop ::
  "(val \<Rightarrow> string) \<Rightarrow> Engine \<Rightarrow> error option \<Rightarrow> gomap \<Rightarrow> Condition list \<Rightarrow> Result \<times> error option"
where
  "and_loop fmtV e ctx data [] =
     (\<lparr>Matched = True, Explanation = ''all conditions met''\<rparr>, None)"
| "and_loop fmtV e ctx data (c # cs) =
     (case evalCondition fmtV e ctx c data of
        (matched, expl, Some err) \<Rightarrow> (Result_zero, Some err)
      | (matched, expl, None) \<Rightarrow>
          if \<not> matched then (\<lparr>Matched = False, Explanation = expl\<rparr>, None)
          else and_loop fmtV e ctx data cs)"

fun or_loop ::
  "(val \<Rightarrow> string) \<Rightarrow> Engine \<Rightarrow> error option \<Rightarrow> gomap \<Rightarrow> Condition list \<Rightarrow> Result \<times> error option"
where
  "or_loop fmtV e ctx data [] =
     (\<lparr>Matched = False, Explanation = ''no conditions met''\<rparr>, None)"
| "or_loop fmtV e ctx data (c # cs) =
     (case evalCondition fmtV e ctx c data of
        (matched, expl, Some err) \<Rightarrow> (Result_zero, Some err)
      | (matched, expl, None) \<Rightarrow>
          if matched then (\<lparr>Matched = True, Explanation = expl\<rparr>, None)
          else or_loop fmtV e ctx data cs)"

definition Engine_EvaluateWithContext ::
  "(val \<Rightarrow> string) \<Rightarrow> Engine \<Rightarrow> error option \<Rightarrow> Rule \<Rightarrow> gomap \<Rightarrow> Result \<times> error option"
where
  "Engine_EvaluateWithContext fmtV e ctx rule data =
     (case ctx of
        Some cerr \<Rightarrow> (Result_zero, Some cerr)
      | None \<Rightarrow>
          if length (Conditions rule) = 0 then (\<lparr>Matched = True, Explanation = []\<rparr>, None)
          else let logic = (if Logic rule = [] then LogicAND else Logic rule) in
            if logic = LogicAND then and_loop fmtV e ctx data (Conditions rule)
            else or_loop fmtV e ctx data (Conditions rule))"

definition Engine_Evaluate ::
  "(val \<Rightarrow> string) \<Rightarrow> Engine \<Rightarrow> Rule \<Rightarrow> gomap \<Rightarrow> Result \<times> error option"
where
  "Engine_Evaluate fmtV e rule data = Engine_EvaluateWithContext fmtV e Background rule data"

definition Evaluate ::
  "(string \<Rightarrow> float64 option) \<Rightarrow> (val \<Rightarrow> string) \<Rightarrow> Rule \<Rightarrow> gomap \<Rightarrow> Result \<times> error option"
where
  "Evaluate pf fmtV rule data = Engine_Evaluate fmtV (Default pf) rule data"

definition EvaluateWithContext ::
  "(string \<Rightarrow> float64 option) \<Rightarrow> (val \<Rightarrow> string) \<Rightarrow> error option \<Rightarrow> Rule \<Rightarrow> gomap
   \<Rightarrow> Result \<times> error option"
where
  "EvaluateWithContext pf fmtV ctx rule data =
     Engine_EvaluateWithContext fmtV (Default pf) ctx rule data"

section \<open>Properties\<close>

subsection \<open>Auxiliary facts\<close>

text \<open>
  The definitions to unfold when an evaluation is computed on concrete inputs.
\<close>

lemmas eval_defs = Evaluate_def Engine_Evaluate_def Engine_EvaluateWithContext_def Background_def
  Default_def New_def registerDefaults_def OperatorEQ_def OperatorNE_def OperatorGT_def OperatorGTE_def
  OperatorLT_def OperatorLTE_def OperatorContains_def OperatorIn_def LogicAND_def LogicOR_def
  evalCondition_def getValue_def map_index_def explain_def arrow_def equal_any_def greater_any_def
  greaterOrEqual_def less_any_def lessOrEqual_def contains_def in_any_def Result_zero_def
  f64_eq_def f64_gt_def f64_ge_def f64_lt_def f64_le_def isNaN_def f64_scaled_def
  float64_of_int_def Let_def compute_floorlog map_len_def deepEqual.simps

lemmas ops_defs = New_def registerDefaults_def OperatorEQ_def OperatorNE_def OperatorGT_def
  OperatorGTE_def OperatorLT_def OperatorLTE_def OperatorContains_def OperatorIn_def

text \<open>
  Facts about the two loops and the condition evaluator, and the library functions on
  strings: \<open>strings.Contains\<close> is the substring relation, \<open>strings.Split\<close> returns at
  least one piece, no piece holds the separator, and joining the pieces gives the string back.
\<close>

lemma Register_lookup:
  "ops (Register e op fn) op = Some fn"
  "op' \<noteq> op \<Longrightarrow> ops (Register e op fn) op' = ops e op'"
  by (simp_all add: Register_def)

lemma evalCondition_expl:
  "evalCondition fmtV e ctx c data = (m, x, None) \<Longrightarrow> x = explain fmtV c m"
  by (auto simp: evalCondition_def split: option.splits prod.splits if_splits)

lemma and_loop_append:
  "\<forall>p\<in>set pre. \<exists>x. evalCondition fmtV e ctx p data = (True, x, None) \<Longrightarrow>
   and_loop fmtV e ctx data (pre @ rest) = and_loop fmtV e ctx data rest"
  by (induction pre) auto

lemma or_loop_append:
  "\<forall>p\<in>set pre. \<exists>x. evalCondition fmtV e ctx p data = (False, x, None) \<Longrightarrow>
   or_loop fmtV e ctx data (pre @ rest) = or_loop fmtV e ctx data rest"
  by (induction pre) auto

lemma and_loop_error_zero:
  "snd (and_loop fmtV e ctx data cs) \<noteq> None \<Longrightarrow> fst (and_loop fmtV e ctx data cs) = Result_zero"
  by (induction cs) (auto split: prod.splits option.splits if_splits)

lemma or_loop_error_zero:
  "snd (or_loop fmtV e ctx data cs) \<noteq> None \<Longrightarrow> fst (or_loop fmtV e ctx data cs) = Result_zero"
  by (induction cs) (auto split: prod.splits option.splits if_splits)

lemma strings_Contains_iff:
  "strings_Contains s t \<longleftrightarrow> (\<exists>p q. s = p @ t @ q)"
proof (induction s)
  case Nil
  then show ?case by simp
next
  case (Cons c s)
  show ?case
  proof
    assume "strings_Contains (c # s) t"
    then consider "take (length t) (c # s) = t" | "strings_Contains s t" by auto
    then show "\<exists>p q. c # s = p @ t @ q"
    proof cases
      case 1
      then have "c # s = [] @ t @ drop (length t) (c # s)"
        by (metis append_Nil append_take_drop_id)
      then show ?thesis by blast
    next
      case 2
      with Cons obtain p q where "s = p @ t @ q" by blast
      then have "c # s = (c # p) @ t @ q" by simp
      then show ?thesis by blast
    qed
  next
    assume "\<exists>p q. c # s = p @ t @ q"
    then obtain p q where pq: "c # s = p @ t @ q" by blast
    show "strings_Contains (c # s) t"
    proof (cases p)
      case Nil
      with pq have "take (length t) (c # s) = t" by simp
      then show ?thesis by simp
    next
      case (Cons a p')
      with pq have "s = p' @ t @ q" by simp
      with Cons.IH show ?thesis by auto
    qed
  qed
qed

lemma in_range_iff:
  "in_range pf a xs = ((\<exists>x\<in>set xs. equal_any pf a x), None)"
  by (induction xs) auto

inductive_cases resolves_NilE: "resolves v [] r"
inductive_cases resolves_ConsE: "resolves v (p # ps) r"

lemma strings_Split_nonempty: "strings_Split s sep \<noteq> []"
  by (induction s) (auto split: list.splits)

lemma strings_Split_no_sep: "p \<in> set (strings_Split s sep) \<Longrightarrow> sep \<notin> set p"
  by (induction s arbitrary: p) (auto split: list.splits if_splits)

lemma strings_Join_Split: "strings_Join (strings_Split s sep) sep = s"
proof (induction s)
  case Nil
  then show ?case by simp
next
  case (Cons c s)
  obtain p ps where sp: "strings_Split s sep = p # ps"
    using strings_Split_nonempty [of s sep] by (cases "strings_Split s sep") auto
  with Cons show ?case
    by (cases ps) auto
qed

lemma getValue_loop_resolves:
  "getValue_loop cur parts = (v, True) \<longleftrightarrow> resolves cur parts v"
proof (induction parts arbitrary: cur)
  case Nil
  show ?case by (auto intro: resolves.intros elim: resolves_NilE)
next
  case (Cons p parts)
  show ?case
  proof
    assume "getValue_loop cur (p # parts) = (v, True)"
    then obtain m v' where "cur = VMap m" "map_index m p = Some v'" "getValue_loop v' parts = (v, True)"
      by (auto split: val.splits option.splits)
    with Cons show "resolves cur (p # parts) v"
      by (auto intro: resolves.intros)
  next
    assume "resolves cur (p # parts) v"
    then obtain m v' where "cur = VMap m" "map_index m p = Some v'" "resolves v' parts v"
      by (auto elim: resolves_ConsE)
    with Cons show "getValue_loop cur (p # parts) = (v, True)"
      by simp
  qed
qed

lemma getValue_loop_not_found:
  "snd (getValue_loop cur parts) = False \<Longrightarrow> getValue_loop cur parts = (VNil, False)"
  by (induction parts arbitrary: cur) (auto split: val.splits option.splits)

lemma getValue_loop_append:
  "getValue_loop cur pre = (mid, True) \<Longrightarrow>
   getValue_loop cur (pre @ rest) = getValue_loop mid rest"
  by (induction pre arbitrary: cur) (auto split: val.splits option.splits)

subsection \<open>AND rules\<close>

text \<open>
  Claim C1, as stated, covers every rule whose logic is AND or unset, and promises the
  explanation \<open>all conditions met\<close> whenever every condition matches. A rule with no
  condition at all satisfies that vacuously, but the guard on the empty condition list
  returns before the logic is read, with an empty explanation.
\<close>

theorem and_empty_rule_counterexample:
  "Evaluate (\<lambda>s. None) (\<lambda>v. []) \<lparr>Conditions = [], Logic = ''and''\<rparr> (Some [])
     = (\<lparr>Matched = True, Explanation = []\<rparr>, None) \<and>
   Evaluate (\<lambda>s. None) (\<lambda>v. []) \<lparr>Conditions = [], Logic = ''and''\<rparr> (Some [])
     \<noteq> (\<lparr>Matched = True, Explanation = ''all conditions met''\<rparr>, None)"
  by (simp add: Evaluate_def Engine_Evaluate_def Engine_EvaluateWithContext_def Background_def)

text \<open>
  Claim C1, amended to rules with at least one condition. Let the logic be \<open>and\<close> or
  unset. If the conditions before \<open>c\<close> all evaluate to true and \<open>c\<close> evaluates to false, the
  result is \<open>Result{Matched: false}\<close> with the explanation of \<open>c\<close>, field, operator and
  formatted value followed by the arrow and \<open>false\<close>, and a nil error: the conditions after
  \<open>c\<close> are arbitrary, so none of them is evaluated and none of their errors can surface.
  If the rule is not empty and every condition evaluates to true, the result is
  \<open>Result{Matched: true, Explanation: "all conditions met"}\<close>.
\<close>

theorem and_short_circuit:
  assumes "Logic rule = [] \<or> Logic rule = LogicAND"
  shows "(Conditions rule = pre @ c # post \<and>
          (\<forall>p\<in>set pre. \<exists>x. evalCondition fmtV e Background p data = (True, x, None)) \<and>
          evalCondition fmtV e Background c data = (False, x, None)
          \<longrightarrow> Engine_Evaluate fmtV e rule data =
                (\<lparr>Matched = False,
                  Explanation = Field_c c @ '' '' @ Op c @ '' '' @ fmtV (Value c) @ '' '' @ arrow @ '' false''\<rparr>,
                 None))
       \<and> (Conditions rule \<noteq> [] \<and>
          (\<forall>p\<in>set (Conditions rule). \<exists>x. evalCondition fmtV e Background p data = (True, x, None))
          \<longrightarrow> Engine_Evaluate fmtV e rule data =
                (\<lparr>Matched = True, Explanation = ''all conditions met''\<rparr>, None))"
proof (intro conjI impI)
  assume h: "Conditions rule = pre @ c # post \<and>
          (\<forall>p\<in>set pre. \<exists>x. evalCondition fmtV e Background p data = (True, x, None)) \<and>
          evalCondition fmtV e Background c data = (False, x, None)"
  then have x: "x = explain fmtV c False"
    using evalCondition_expl by blast
  from h have "and_loop fmtV e Background data (Conditions rule)
                 = and_loop fmtV e Background data (c # post)"
    by (simp add: and_loop_append)
  also from h have "\<dots> = (\<lparr>Matched = False, Explanation = x\<rparr>, None)"
    by simp
  finally show "Engine_Evaluate fmtV e rule data =
                (\<lparr>Matched = False,
                  Explanation = Field_c c @ '' '' @ Op c @ '' '' @ fmtV (Value c) @ '' '' @ arrow @ '' false''\<rparr>,
                 None)"
    using assms h x
    by (auto simp: Engine_Evaluate_def Engine_EvaluateWithContext_def Background_def
        explain_def LogicAND_def)
next
  assume h: "Conditions rule \<noteq> [] \<and>
          (\<forall>p\<in>set (Conditions rule). \<exists>x. evalCondition fmtV e Background p data = (True, x, None))"
  then have "and_loop fmtV e Background data (Conditions rule @ [])
                 = and_loop fmtV e Background data []"
    by (intro and_loop_append) simp
  then show "Engine_Evaluate fmtV e rule data =
                (\<lparr>Matched = True, Explanation = ''all conditions met''\<rparr>, None)"
    using assms h
    by (auto simp: Engine_Evaluate_def Engine_EvaluateWithContext_def Background_def LogicAND_def)
qed

theorem and_short_circuit_witness:
  "Engine_Evaluate (\<lambda>v. if v = VInt 18 then ''18'' else ''?'') (New (\<lambda>s. None))
     \<lparr>Conditions = [\<lparr>Field_c = ''status'', Op = ''eq'', Value = VString ''active''\<rparr>,
                    \<lparr>Field_c = ''age'', Op = ''gt'', Value = VInt 18\<rparr>,
                    \<lparr>Field_c = ''missing'', Op = ''eq'', Value = VInt 1\<rparr>],
      Logic = ''and''\<rparr>
     (Some [(''status'', VString ''active''), (''age'', VInt 17)])
   = (\<lparr>Matched = False, Explanation = ''age gt 18 '' @ arrow @ '' false''\<rparr>, None)
   \<and>
   Engine_Evaluate (\<lambda>v. if v = VInt 18 then ''18'' else ''?'') (New (\<lambda>s. None))
     \<lparr>Conditions = [\<lparr>Field_c = ''status'', Op = ''eq'', Value = VString ''active''\<rparr>], Logic = []\<rparr>
     (Some [(''status'', VString ''active''), (''age'', VInt 17)])
   = (\<lparr>Matched = True, Explanation = ''all conditions met''\<rparr>, None)"
proof -
  let ?fmt = "\<lambda>v. if v = VInt 18 then ''18'' else ''?''"
  let ?e = "New (\<lambda>s. None)"
  let ?c1 = "\<lparr>Field_c = ''status'', Op = ''eq'', Value = VString ''active''\<rparr>"
  let ?c2 = "\<lparr>Field_c = ''age'', Op = ''gt'', Value = VInt 18\<rparr>"
  let ?c3 = "\<lparr>Field_c = ''missing'', Op = ''eq'', Value = VInt 1\<rparr>"
  let ?data = "Some [(''status'', VString ''active''), (''age'', VInt 17)]"
  have e1: "evalCondition ?fmt ?e Background ?c1 ?data
              = (True, ''status eq ? '' @ arrow @ '' true'', None)"
    by (simp add: eval_defs)
  have e2: "evalCondition ?fmt ?e Background ?c2 ?data
              = (False, ''age gt 18 '' @ arrow @ '' false'', None)"
    by (simp add: eval_defs)
  have a: "Engine_Evaluate ?fmt ?e \<lparr>Conditions = [?c1, ?c2, ?c3], Logic = ''and''\<rparr> ?data
      = (\<lparr>Matched = False, Explanation = ''age gt 18 '' @ arrow @ '' false''\<rparr>, None)"
    using and_short_circuit [where rule = "\<lparr>Conditions = [?c1, ?c2, ?c3], Logic = ''and''\<rparr>"
        and pre = "[?c1]" and c = ?c2 and post = "[?c3]" and fmtV = ?fmt and e = ?e
        and data = ?data and x = "''age gt 18 '' @ arrow @ '' false''"] e1 e2
    by (simp add: LogicAND_def)
  have b: "Engine_Evaluate ?fmt ?e \<lparr>Conditions = [?c1], Logic = []\<rparr> ?data
      = (\<lparr>Matched = True, Explanation = ''all conditions met''\<rparr>, None)"
    using and_short_circuit [where rule = "\<lparr>Conditions = [?c1], Logic = []\<rparr>"
        and fmtV = ?fmt and e = ?e and data = ?data] e1
    by simp
  from a b show ?thesis by simp
qed

subsection \<open>OR rules\<close>

text \<open>
  Claim C2, as stated, covers every rule whose logic is OR, and promises
  \<open>Result{Matched: false, Explanation: "no conditions met"}\<close> whenever no condition matches.
  For a rule with no condition the guard on the empty condition list answers first, and it
  answers \<open>Matched: true\<close>.
\<close>

theorem or_empty_rule_counterexample:
  "Evaluate (\<lambda>s. None) (\<lambda>v. []) \<lparr>Conditions = [], Logic = ''or''\<rparr> (Some [])
     = (\<lparr>Matched = True, Explanation = []\<rparr>, None) \<and>
   Evaluate (\<lambda>s. None) (\<lambda>v. []) \<lparr>Conditions = [], Logic = ''or''\<rparr> (Some [])
     \<noteq> (\<lparr>Matched = False, Explanation = ''no conditions met''\<rparr>, None)"
  by (simp add: Evaluate_def Engine_Evaluate_def Engine_EvaluateWithContext_def Background_def)

text \<open>
  Claim C2, amended to rules with at least one condition. Let the logic be \<open>or\<close>. If the
  conditions before \<open>c\<close> all evaluate to false and \<open>c\<close> evaluates to true, the result is
  \<open>Result{Matched: true}\<close> with the explanation of \<open>c\<close> ending in \<open>true\<close>, whatever
  follows \<open>c\<close>. If instead \<open>c\<close> fails with an error, that error is returned with the zero
  \<open>Result\<close>, as in an AND rule. If the rule is not empty and every condition evaluates to
  false, the result is \<open>Result{Matched: false, Explanation: "no conditions met"}\<close>.
\<close>

theorem or_short_circuit:
  assumes "Logic rule = LogicOR"
  shows "(Conditions rule = pre @ c # post \<and>
          (\<forall>p\<in>set pre. \<exists>x. evalCondition fmtV e Background p data = (False, x, None)) \<and>
          evalCondition fmtV e Background c data = (True, x, None)
          \<longrightarrow> Engine_Evaluate fmtV e rule data =
                (\<lparr>Matched = True,
                  Explanation = Field_c c @ '' '' @ Op c @ '' '' @ fmtV (Value c) @ '' '' @ arrow @ '' true''\<rparr>,
                 None))
       \<and> (Conditions rule = pre @ c # post \<and>
          (\<forall>p\<in>set pre. \<exists>x. evalCondition fmtV e Background p data = (False, x, None)) \<and>
          evalCondition fmtV e Background c data = (m, x, Some err)
          \<longrightarrow> Engine_Evaluate fmtV e rule data = (\<lparr>Matched = False, Explanation = []\<rparr>, Some err))
       \<and> (Conditions rule \<noteq> [] \<and>
          (\<forall>p\<in>set (Conditions rule). \<exists>x. evalCondition fmtV e Background p data = (False, x, None))
          \<longrightarrow> Engine_Evaluate fmtV e rule data =
                (\<lparr>Matched = False, Explanation = ''no conditions met''\<rparr>, None))"
proof (intro conjI impI)
  assume h: "Conditions rule = pre @ c # post \<and>
          (\<forall>p\<in>set pre. \<exists>x. evalCondition fmtV e Background p data = (False, x, None)) \<and>
          evalCondition fmtV e Background c data = (True, x, None)"
  then have x: "x = explain fmtV c True"
    using evalCondition_expl by blast
  from h have "or_loop fmtV e Background data (Conditions rule)
                 = or_loop fmtV e Background data (c # post)"
    by (simp add: or_loop_append)
  also from h have "\<dots> = (\<lparr>Matched = True, Explanation = x\<rparr>, None)"
    by simp
  finally show "Engine_Evaluate fmtV e rule data =
                (\<lparr>Matched = True,
                  Explanation = Field_c c @ '' '' @ Op c @ '' '' @ fmtV (Value c) @ '' '' @ arrow @ '' true''\<rparr>,
                 None)"
    using assms h x
    by (auto simp: Engine_Evaluate_def Engine_EvaluateWithContext_def Background_def
        explain_def LogicAND_def LogicOR_def)
next
  assume h: "Conditions rule = pre @ c # post \<and>
          (\<forall>p\<in>set pre. \<exists>x. evalCondition fmtV e Background p data = (False, x, None)) \<and>
          evalCondition fmtV e Background c data = (m, x, Some err)"
  then have "or_loop fmtV e Background data (Conditions rule)
                 = or_loop fmtV e Background data (c # post)"
    by (simp add: or_loop_append)
  also from h have "\<dots> = (Result_zero, Some err)"
    by simp
  finally show "Engine_Evaluate fmtV e rule data = (\<lparr>Matched = False, Explanation = []\<rparr>, Some err)"
    using assms h
    by (auto simp: Engine_Evaluate_def Engine_EvaluateWithContext_def Background_def
        Result_zero_def LogicAND_def LogicOR_def)
next
  assume h: "Conditions rule \<noteq> [] \<and>
          (\<forall>p\<in>set (Conditions rule). \<exists>x. evalCondition fmtV e Background p data = (False, x, None))"
  then have "or_loop fmtV e Background data (Conditions rule @ [])
                 = or_loop fmtV e Background data []"
    by (intro or_loop_append) simp
  then show "Engine_Evaluate fmtV e rule data =
                (\<lparr>Matched = False, Explanation = ''no conditions met''\<rparr>, None)"
    using assms h
    by (auto simp: Engine_Evaluate_def Engine_EvaluateWithContext_def Background_def
        LogicAND_def LogicOR_def)
qed

theorem or_short_circuit_witness:
  "Engine_Evaluate (\<lambda>v. if v = VInt 100 then ''100'' else ''admin'') (New (\<lambda>s. None))
     \<lparr>Conditions = [\<lparr>Field_c = ''role'', Op = ''eq'', Value = VString ''admin''\<rparr>,
                    \<lparr>Field_c = ''score'', Op = ''gt'', Value = VInt 100\<rparr>,
                    \<lparr>Field_c = ''missing'', Op = ''eq'', Value = VInt 1\<rparr>],
      Logic = ''or''\<rparr>
     (Some [(''role'', VString ''user''), (''score'', VInt 150)])
   = (\<lparr>Matched = True, Explanation = ''score gt 100 '' @ arrow @ '' true''\<rparr>, None)
   \<and>
   Engine_Evaluate (\<lambda>v. if v = VInt 100 then ''100'' else ''admin'') (New (\<lambda>s. None))
     \<lparr>Conditions = [\<lparr>Field_c = ''role'', Op = ''eq'', Value = VString ''admin''\<rparr>,
                    \<lparr>Field_c = ''missing'', Op = ''eq'', Value = VInt 1\<rparr>],
      Logic = ''or''\<rparr>
     (Some [(''role'', VString ''user''), (''score'', VInt 150)])
   = (\<lparr>Matched = False, Explanation = []\<rparr>, Some (FieldNotFound ''missing''))
   \<and>
   Engine_Evaluate (\<lambda>v. if v = VInt 100 then ''100'' else ''admin'') (New (\<lambda>s. None))
     \<lparr>Conditions = [\<lparr>Field_c = ''role'', Op = ''eq'', Value = VString ''admin''\<rparr>], Logic = ''or''\<rparr>
     (Some [(''role'', VString ''user''), (''score'', VInt 150)])
   = (\<lparr>Matched = False, Explanation = ''no conditions met''\<rparr>, None)"
proof -
  let ?fmt = "\<lambda>v. if v = VInt 100 then ''100'' else ''admin''"
  let ?e = "New (\<lambda>s. None)"
  let ?c1 = "\<lparr>Field_c = ''role'', Op = ''eq'', Value = VString ''admin''\<rparr>"
  let ?c2 = "\<lparr>Field_c = ''score'', Op = ''gt'', Value = VInt 100\<rparr>"
  let ?c3 = "\<lparr>Field_c = ''missing'', Op = ''eq'', Value = VInt 1\<rparr>"
  let ?data = "Some [(''role'', VString ''user''), (''score'', VInt 150)]"
  have e1: "evalCondition ?fmt ?e Background ?c1 ?data
              = (False, ''role eq admin '' @ arrow @ '' false'', None)"
    by (simp add: eval_defs)
  have e2: "evalCondition ?fmt ?e Background ?c2 ?data
              = (True, ''score gt 100 '' @ arrow @ '' true'', None)"
    by (simp add: eval_defs)
  have e3: "evalCondition ?fmt ?e Background ?c3 ?data
              = (False, [], Some (FieldNotFound ''missing''))"
    by (simp add: eval_defs)
  have a: "Engine_Evaluate ?fmt ?e \<lparr>Conditions = [?c1, ?c2, ?c3], Logic = ''or''\<rparr> ?data
      = (\<lparr>Matched = True, Explanation = ''score gt 100 '' @ arrow @ '' true''\<rparr>, None)"
    using or_short_circuit [where rule = "\<lparr>Conditions = [?c1, ?c2, ?c3], Logic = ''or''\<rparr>"
        and pre = "[?c1]" and c = ?c2 and post = "[?c3]" and fmtV = ?fmt and e = ?e
        and data = ?data and x = "''score gt 100 '' @ arrow @ '' true''"] e1 e2
    by (simp add: LogicOR_def)
  have b: "Engine_Evaluate ?fmt ?e \<lparr>Conditions = [?c1, ?c3], Logic = ''or''\<rparr> ?data
      = (\<lparr>Matched = False, Explanation = []\<rparr>, Some (FieldNotFound ''missing''))"
    using or_short_circuit [where rule = "\<lparr>Conditions = [?c1, ?c3], Logic = ''or''\<rparr>"
        and pre = "[?c1]" and c = ?c3 and post = "[]" and fmtV = ?fmt and e = ?e
        and data = ?data and x = "[]" and m = False and err = "FieldNotFound ''missing''"] e1 e3
    by (simp add: LogicOR_def)
  have c: "Engine_Evaluate ?fmt ?e \<lparr>Conditions = [?c1], Logic = ''or''\<rparr> ?data
      = (\<lparr>Matched = False, Explanation = ''no conditions met''\<rparr>, None)"
    using or_short_circuit [where rule = "\<lparr>Conditions = [?c1], Logic = ''or''\<rparr>"
        and fmtV = ?fmt and e = ?e and data = ?data] e1
    by (simp add: LogicOR_def)
  from a b c show ?thesis by simp
qed

subsection \<open>Errors abort the evaluation\<close>

text \<open>
  Claim C3. Whenever \<open>EvaluateWithContext\<close> returns an error, the \<open>Result\<close> beside it is
  the zero value. A condition whose field does not resolve fails with the error naming
  the field; one whose operator is not registered fails with the error naming the
  operator; one whose comparator returns an error fails with that error. When the loop
  reaches a condition that fails (every earlier condition evaluated to true under AND, to
  false under OR), the whole evaluation returns that error with the zero \<open>Result\<close>: the
  error is never turned into \<open>Matched: false\<close>.
\<close>

theorem errors_abort_evaluation:
  "(snd (Engine_EvaluateWithContext fmtV e ctx rule data) \<noteq> None
      \<longrightarrow> fst (Engine_EvaluateWithContext fmtV e ctx rule data) = \<lparr>Matched = False, Explanation = []\<rparr>)
   \<and> (snd (getValue data (Field_c c1)) = False
      \<longrightarrow> evalCondition fmtV e Background c1 data = (False, [], Some (FieldNotFound (Field_c c1))))
   \<and> (getValue data (Field_c c2) = (v2, True) \<and> ops e (Op c2) = None
      \<longrightarrow> evalCondition fmtV e Background c2 data = (False, [], Some (UnknownOperator (Op c2))))
   \<and> (getValue data (Field_c c3) = (v3, True) \<and> ops e (Op c3) = Some fn \<and> fn v3 (Value c3) = (m3, Some err3)
      \<longrightarrow> evalCondition fmtV e Background c3 data = (False, [], Some err3))
   \<and> (Conditions rule = pre @ c # post \<and>
       (\<forall>p\<in>set pre. \<exists>x. evalCondition fmtV e Background p data
                               = (Logic rule = [] \<or> Logic rule = LogicAND, x, None)) \<and>
       evalCondition fmtV e Background c data = (m, x, Some err)
      \<longrightarrow> Engine_Evaluate fmtV e rule data = (\<lparr>Matched = False, Explanation = []\<rparr>, Some err))"
proof (intro conjI impI)
  assume "snd (Engine_EvaluateWithContext fmtV e ctx rule data) \<noteq> None"
  then show "fst (Engine_EvaluateWithContext fmtV e ctx rule data) = \<lparr>Matched = False, Explanation = []\<rparr>"
    using and_loop_error_zero [of fmtV e ctx data "Conditions rule"]
      or_loop_error_zero [of fmtV e ctx data "Conditions rule"]
    by (auto simp: Engine_EvaluateWithContext_def Result_zero_def Let_def
        split: option.splits if_splits)
next
  assume "snd (getValue data (Field_c c1)) = False"
  then show "evalCondition fmtV e Background c1 data = (False, [], Some (FieldNotFound (Field_c c1)))"
    by (cases "getValue data (Field_c c1)") (simp add: evalCondition_def Background_def)
next
  assume "getValue data (Field_c c2) = (v2, True) \<and> ops e (Op c2) = None"
  then show "evalCondition fmtV e Background c2 data = (False, [], Some (UnknownOperator (Op c2)))"
    by (simp add: evalCondition_def Background_def)
next
  assume "getValue data (Field_c c3) = (v3, True) \<and> ops e (Op c3) = Some fn \<and>
          fn v3 (Value c3) = (m3, Some err3)"
  then show "evalCondition fmtV e Background c3 data = (False, [], Some err3)"
    by (simp add: evalCondition_def Background_def)
next
  assume h: "Conditions rule = pre @ c # post \<and>
       (\<forall>p\<in>set pre. \<exists>x. evalCondition fmtV e Background p data
                               = (Logic rule = [] \<or> Logic rule = LogicAND, x, None)) \<and>
       evalCondition fmtV e Background c data = (m, x, Some err)"
  show "Engine_Evaluate fmtV e rule data = (\<lparr>Matched = False, Explanation = []\<rparr>, Some err)"
  proof (cases "Logic rule = [] \<or> Logic rule = LogicAND")
    case True
    with h have "and_loop fmtV e Background data (Conditions rule)
                   = and_loop fmtV e Background data (c # post)"
      by (simp add: and_loop_append)
    also from h have "\<dots> = (Result_zero, Some err)"
      by simp
    finally show ?thesis
      using True h
      by (auto simp: Engine_Evaluate_def Engine_EvaluateWithContext_def Background_def
          Result_zero_def LogicAND_def)
  next
    case False
    with h have "or_loop fmtV e Background data (Conditions rule)
                   = or_loop fmtV e Background data (c # post)"
      by (simp add: or_loop_append)
    also from h have "\<dots> = (Result_zero, Some err)"
      by simp
    finally show ?thesis
      using False h
      by (auto simp: Engine_Evaluate_def Engine_EvaluateWithContext_def Background_def
          Result_zero_def LogicAND_def)
  qed
qed

theorem errors_abort_evaluation_witness:
  "Engine_Evaluate (\<lambda>v. ''active'') (New (\<lambda>s. None))
     \<lparr>Conditions = [\<lparr>Field_c = ''status'', Op = ''eq'', Value = VString ''active''\<rparr>,
                    \<lparr>Field_c = ''status'', Op = ''gt'', Value = VInt 1\<rparr>,
                    \<lparr>Field_c = ''status'', Op = ''eq'', Value = VString ''idle''\<rparr>],
      Logic = ''and''\<rparr>
     (Some [(''status'', VString ''active'')])
   = (\<lparr>Matched = False, Explanation = []\<rparr>, Some (Errorf ''type mismatch for >''))
   \<and> evalCondition (\<lambda>v. ''active'') (New (\<lambda>s. None)) Background
        \<lparr>Field_c = ''missing.field'', Op = ''eq'', Value = VInt 1\<rparr> (Some [(''status'', VString ''active'')])
      = (False, [], Some (FieldNotFound ''missing.field''))
   \<and> evalCondition (\<lambda>v. ''active'') (New (\<lambda>s. None)) Background
        \<lparr>Field_c = ''status'', Op = ''matches'', Value = VInt 1\<rparr> (Some [(''status'', VString ''active'')])
      = (False, [], Some (UnknownOperator ''matches''))
   \<and> evalCondition (\<lambda>v. ''active'') (New (\<lambda>s. None)) Background
        \<lparr>Field_c = ''status'', Op = ''gt'', Value = VInt 1\<rparr> (Some [(''status'', VString ''active'')])
      = (False, [], Some (Errorf ''type mismatch for >''))"
proof -
  let ?fmt = "\<lambda>v::val. ''active''"
  let ?e = "New (\<lambda>s. None)"
  let ?p = "\<lparr>Field_c = ''status'', Op = ''eq'', Value = VString ''active''\<rparr>"
  let ?c1 = "\<lparr>Field_c = ''missing.field'', Op = ''eq'', Value = VInt 1\<rparr>"
  let ?c2 = "\<lparr>Field_c = ''status'', Op = ''matches'', Value = VInt 1\<rparr>"
  let ?c3 = "\<lparr>Field_c = ''status'', Op = ''gt'', Value = VInt 1\<rparr>"
  let ?q = "\<lparr>Field_c = ''status'', Op = ''eq'', Value = VString ''idle''\<rparr>"
  let ?data = "Some [(''status'', VString ''active'')]"
  let ?rule = "\<lparr>Conditions = [?p, ?c3, ?q], Logic = ''and''\<rparr>"
  have g1: "snd (getValue ?data (Field_c ?c1)) = False"
    by (simp add: getValue_def map_index_def)
  have g2: "getValue ?data (Field_c ?c2) = (VString ''active'', True) \<and> ops ?e (Op ?c2) = None"
    by (simp add: eval_defs)
  have g3: "getValue ?data (Field_c ?c3) = (VString ''active'', True) \<and>
            ops ?e (Op ?c3) = Some (greater_any (\<lambda>s. None)) \<and>
            greater_any (\<lambda>s. None) (VString ''active'') (Value ?c3)
              = (False, Some (Errorf ''type mismatch for >''))"
    by (simp add: New_def registerDefaults_def OperatorEQ_def OperatorNE_def OperatorGT_def
        OperatorGTE_def OperatorLT_def OperatorLTE_def OperatorContains_def OperatorIn_def
        getValue_def map_index_def greater_any_def)
  have p: "evalCondition ?fmt ?e Background ?p ?data = (True, ''status eq active '' @ arrow @ '' true'', None)"
    by (simp add: eval_defs)
  have c: "evalCondition ?fmt ?e Background ?c3 ?data = (False, [], Some (Errorf ''type mismatch for >''))"
    by (simp add: eval_defs)
  have r: "Conditions ?rule = [?p] @ ?c3 # [?q] \<and>
       (\<forall>p\<in>set [?p]. \<exists>x. evalCondition ?fmt ?e Background p ?data
                               = (Logic ?rule = [] \<or> Logic ?rule = LogicAND, x, None))"
    using p by (simp add: LogicAND_def)
  show ?thesis
    using errors_abort_evaluation [where fmtV = ?fmt and e = ?e and ctx = Background
        and rule = ?rule and data = ?data
        and ?c1.0 = ?c1 and ?c2.0 = ?c2 and ?v2.0 = "VString ''active''"
        and ?c3.0 = ?c3 and ?v3.0 = "VString ''active''" and fn = "greater_any (\<lambda>s. None)"
        and ?m3.0 = False and ?err3.0 = "Errorf ''type mismatch for >''"
        and pre = "[?p]" and c = ?c3 and post = "[?q]" and m = False and x = "[]"
        and err = "Errorf ''type mismatch for >''"]
      g1 g2 g3 r c
    by simp
qed

subsection \<open>The values of the logic field\<close>

text \<open>
  Claim C10. A rule whose logic is neither empty nor exactly \<open>and\<close> evaluates as the same
  rule with logic \<open>or\<close>; a rule whose logic is empty evaluates as the same rule with logic
  \<open>and\<close>. No other value behaves as AND: for every such value \<open>l\<close> there is a rule of two
  conditions on which logic \<open>l\<close> and logic \<open>and\<close> give different results.
\<close>

theorem logic_values:
  "(Logic rule \<noteq> [] \<and> Logic rule \<noteq> ''and''
      \<longrightarrow> Engine_Evaluate fmtV e rule data = Engine_Evaluate fmtV e (rule\<lparr>Logic := LogicOR\<rparr>) data)
   \<and> (Logic rule = [] \<or> Logic rule = ''and''
      \<longrightarrow> Engine_Evaluate fmtV e rule data = Engine_Evaluate fmtV e (rule\<lparr>Logic := LogicAND\<rparr>) data)
   \<and> (l \<noteq> [] \<and> l \<noteq> ''and''
      \<longrightarrow> Evaluate pf fmtV
            \<lparr>Conditions = [\<lparr>Field_c = ''f'', Op = OperatorContains, Value = VString ''b''\<rparr>,
                           \<lparr>Field_c = ''f'', Op = OperatorContains, Value = VString ''a''\<rparr>],
             Logic = l\<rparr>
            (Some [(''f'', VString ''a'')])
          \<noteq> Evaluate pf fmtV
            \<lparr>Conditions = [\<lparr>Field_c = ''f'', Op = OperatorContains, Value = VString ''b''\<rparr>,
                           \<lparr>Field_c = ''f'', Op = OperatorContains, Value = VString ''a''\<rparr>],
             Logic = LogicAND\<rparr>
            (Some [(''f'', VString ''a'')]))"
  by (simp add: eval_defs)

theorem logic_values_witness:
  "Evaluate (\<lambda>s. None) (\<lambda>v. case v of VString s \<Rightarrow> s | _ \<Rightarrow> [])
     \<lparr>Conditions = [\<lparr>Field_c = ''f'', Op = ''contains'', Value = VString ''b''\<rparr>,
                    \<lparr>Field_c = ''f'', Op = ''contains'', Value = VString ''a''\<rparr>],
      Logic = ''AND''\<rparr>
     (Some [(''f'', VString ''a'')])
   = (\<lparr>Matched = True, Explanation = ''f contains a '' @ arrow @ '' true''\<rparr>, None)
   \<and>
   Evaluate (\<lambda>s. None) (\<lambda>v. case v of VString s \<Rightarrow> s | _ \<Rightarrow> [])
     \<lparr>Conditions = [\<lparr>Field_c = ''f'', Op = ''contains'', Value = VString ''b''\<rparr>,
                    \<lparr>Field_c = ''f'', Op = ''contains'', Value = VString ''a''\<rparr>],
      Logic = []\<rparr>
     (Some [(''f'', VString ''a'')])
   = (\<lparr>Matched = False, Explanation = ''f contains b '' @ arrow @ '' false''\<rparr>, None)"
proof -
  let ?fmt = "\<lambda>v. case v of VString s \<Rightarrow> s | _ \<Rightarrow> []"
  let ?cs = "[\<lparr>Field_c = ''f'', Op = ''contains'', Value = VString ''b''\<rparr>,
              \<lparr>Field_c = ''f'', Op = ''contains'', Value = VString ''a''\<rparr>]"
  let ?data = "Some [(''f'', VString ''a'')]"
  have o: "Engine_Evaluate ?fmt (Default (\<lambda>s. None)) \<lparr>Conditions = ?cs, Logic = LogicOR\<rparr> ?data
       = (\<lparr>Matched = True, Explanation = ''f contains a '' @ arrow @ '' true''\<rparr>, None)"
    by (simp add: eval_defs)
  have a: "Engine_Evaluate ?fmt (Default (\<lambda>s. None)) \<lparr>Conditions = ?cs, Logic = LogicAND\<rparr> ?data
       = (\<lparr>Matched = False, Explanation = ''f contains b '' @ arrow @ '' false''\<rparr>, None)"
    by (simp add: eval_defs)
  have 1: "Engine_Evaluate ?fmt (Default (\<lambda>s. None)) \<lparr>Conditions = ?cs, Logic = ''AND''\<rparr> ?data
       = (\<lparr>Matched = True, Explanation = ''f contains a '' @ arrow @ '' true''\<rparr>, None)"
    using logic_values [where rule = "\<lparr>Conditions = ?cs, Logic = ''AND''\<rparr>" and fmtV = ?fmt
        and e = "Default (\<lambda>s. None)" and data = ?data and l = "''AND''"] o
    by simp
  have 2: "Engine_Evaluate ?fmt (Default (\<lambda>s. None)) \<lparr>Conditions = ?cs, Logic = []\<rparr> ?data
       = (\<lparr>Matched = False, Explanation = ''f contains b '' @ arrow @ '' false''\<rparr>, None)"
    using logic_values [where rule = "\<lparr>Conditions = ?cs, Logic = []\<rparr>" and fmtV = ?fmt
        and e = "Default (\<lambda>s. None)" and data = ?data and l = "''AND''"] a
    by simp
  from 1 2 show ?thesis by (simp add: Evaluate_def)
qed

subsection \<open>The empty rule\<close>

text \<open>
  Claim C7. A rule whose condition list is empty matches every record, a nil record
  included, whatever its logic: \<open>Evaluate\<close> returns \<open>Result{Matched: true}\<close> with an empty
  explanation and a nil error. This holds on every engine and on the default one.
\<close>

theorem empty_rule_matches:
  "Conditions rule = [] \<Longrightarrow>
   Engine_Evaluate fmtV e rule data = (\<lparr>Matched = True, Explanation = []\<rparr>, None) \<and>
   Evaluate pf fmtV rule data = (\<lparr>Matched = True, Explanation = []\<rparr>, None)"
  by (simp add: Evaluate_def Engine_Evaluate_def Engine_EvaluateWithContext_def Background_def)

theorem empty_rule_matches_witness:
  "Conditions \<lparr>Conditions = [], Logic = ''or''\<rparr> = [] \<and>
   Engine_Evaluate (\<lambda>v. []) \<lparr>ops = Map.empty\<rparr> \<lparr>Conditions = [], Logic = ''or''\<rparr> None
     = (\<lparr>Matched = True, Explanation = []\<rparr>, None) \<and>
   Evaluate (\<lambda>s. None) (\<lambda>v. []) \<lparr>Conditions = [], Logic = ''or''\<rparr> None
     = (\<lparr>Matched = True, Explanation = []\<rparr>, None)"
  using empty_rule_matches [of "\<lparr>Conditions = [], Logic = ''or''\<rparr>" "\<lambda>v. []" "\<lparr>ops = Map.empty\<rparr>" None "\<lambda>s. None"]
  by simp

subsection \<open>Equality\<close>

text \<open>
  Claim C4. \<open>equal\<close> is true exactly when its operands are deeply equal or both coerce to
  a \<open>float64\<close> and the two floats are equal. The operators \<open>eq\<close> and \<open>ne\<close> of a new
  engine return \<open>equal\<close> and its negation, always with a nil error. The integer 100
  equals the float 100.0 (exponent 1029, fraction \<open>0.5625 * 2 ^ 52\<close>); the string \<open>100\<close>
  equals the integer 100 when \<open>ParseFloat\<close> reads it as 100.0; the string \<open>abc\<close> differs
  from the integer 100 when \<open>ParseFloat\<close> rejects it.
\<close>

theorem eq_ne_semantics:
  "equal_any pf a b
     = (deepEqual a b \<or> (\<exists>fa fb. toFloat pf a = Some fa \<and> toFloat pf b = Some fb \<and> f64_eq fa fb))
   \<and> (\<exists>eq ne. ops (New pf) OperatorEQ = Some eq \<and> ops (New pf) OperatorNE = Some ne \<and>
         eq a b = (equal_any pf a b, None) \<and> ne a b = (\<not> equal_any pf a b, None))
   \<and> equal_any pf (VInt 100) (VFloat64 (Float64 False 1029 2533274790395904))
   \<and> (pf ''100'' = Some (Float64 False 1029 2533274790395904)
        \<longrightarrow> equal_any pf (VString ''100'') (VInt 100))
   \<and> (pf ''abc'' = None \<longrightarrow> \<not> equal_any pf (VString ''abc'') (VInt 100))"
proof (intro conjI impI)
  show "equal_any pf a b
     = (deepEqual a b \<or> (\<exists>fa fb. toFloat pf a = Some fa \<and> toFloat pf b = Some fb \<and> f64_eq fa fb))"
    by (auto simp: equal_any_def split: option.splits)
  show "\<exists>eq ne. ops (New pf) OperatorEQ = Some eq \<and> ops (New pf) OperatorNE = Some ne \<and>
         eq a b = (equal_any pf a b, None) \<and> ne a b = (\<not> equal_any pf a b, None)"
    by (simp add: ops_defs)
  have f: "float64_of_int (sint (100 :: 64 word)) = Float64 False 1029 2533274790395904"
    by (simp add: float64_of_int_def Let_def compute_floorlog)
  have e: "f64_eq (Float64 False 1029 2533274790395904) (Float64 False 1029 2533274790395904)"
    by (simp add: f64_eq_def isNaN_def)
  show "equal_any pf (VInt 100) (VFloat64 (Float64 False 1029 2533274790395904))"
    using f e by (simp add: equal_any_def)
  show "equal_any pf (VString ''100'') (VInt 100)"
    if "pf ''100'' = Some (Float64 False 1029 2533274790395904)"
    using that f e by (simp add: equal_any_def)
  show "\<not> equal_any pf (VString ''abc'') (VInt 100)" if "pf ''abc'' = None"
    using that by (simp add: equal_any_def deepEqual.simps)
qed

theorem eq_ne_semantics_witness:
  "equal_any (\<lambda>s. if s = ''100'' then Some (Float64 False 1029 2533274790395904) else None)
     (VString ''100'') (VInt 100)
   \<and> \<not> equal_any (\<lambda>s. if s = ''100'' then Some (Float64 False 1029 2533274790395904) else None)
     (VString ''abc'') (VInt 100)"
proof -
  let ?pf = "\<lambda>s. if s = ''100'' then Some (Float64 False 1029 2533274790395904) else None"
  have p: "?pf ''100'' = Some (Float64 False 1029 2533274790395904)" "?pf ''abc'' = None"
    by simp_all
  from eq_ne_semantics [where pf = ?pf and a = VNil and b = VNil] p show ?thesis
    by blast
qed

subsection \<open>Ordering comparators\<close>

text \<open>
  Claim C5. When both operands coerce to a \<open>float64\<close>, \<open>gt\<close>, \<open>gte\<close>, \<open>lt\<close> and
  \<open>lte\<close> return the comparison of the two floats with a nil error. When one of them does
  not, each returns \<open>false\<close> together with its own type-mismatch error, which names the
  operator by its comparison sign. The coercion rejects exactly nil, booleans, slices,
  maps and the strings that \<open>ParseFloat\<close> rejects; it accepts the floats and the integers
  of every width.
\<close>

theorem ordering_comparators:
  "(toFloat pf a = Some fa \<and> toFloat pf b = Some fb \<longrightarrow>
      greater_any pf a b = (f64_gt fa fb, None) \<and>
      greaterOrEqual pf a b = (f64_ge fa fb, None) \<and>
      less_any pf a b = (f64_lt fa fb, None) \<and>
      lessOrEqual pf a b = (f64_le fa fb, None))
   \<and> (toFloat pf a = None \<or> toFloat pf b = None \<longrightarrow>
      greater_any pf a b = (False, Some (Errorf ''type mismatch for >'')) \<and>
      greaterOrEqual pf a b = (False, Some (Errorf ''type mismatch for >='')) \<and>
      less_any pf a b = (False, Some (Errorf ''type mismatch for <'')) \<and>
      lessOrEqual pf a b = (False, Some (Errorf ''type mismatch for <='')))
   \<and> (toFloat pf v = None \<longleftrightarrow>
        v = VNil \<or> (\<exists>x. v = VBool x) \<or> (\<exists>x. v = VSlice x) \<or> (\<exists>x. v = VMap x) \<or>
        (\<exists>s. v = VString s \<and> pf s = None))
   \<and> ops (New pf) OperatorGT = Some (greater_any pf)
   \<and> ops (New pf) OperatorGTE = Some (greaterOrEqual pf)
   \<and> ops (New pf) OperatorLT = Some (less_any pf)
   \<and> ops (New pf) OperatorLTE = Some (lessOrEqual pf)"
proof (intro conjI impI)
  assume "toFloat pf a = Some fa \<and> toFloat pf b = Some fb"
  then show "greater_any pf a b = (f64_gt fa fb, None)"
    "greaterOrEqual pf a b = (f64_ge fa fb, None)"
    "less_any pf a b = (f64_lt fa fb, None)"
    "lessOrEqual pf a b = (f64_le fa fb, None)"
    by (simp_all add: greater_any_def greaterOrEqual_def less_any_def lessOrEqual_def)
next
  assume "toFloat pf a = None \<or> toFloat pf b = None"
  then show "greater_any pf a b = (False, Some (Errorf ''type mismatch for >''))"
    "greaterOrEqual pf a b = (False, Some (Errorf ''type mismatch for >=''))"
    "less_any pf a b = (False, Some (Errorf ''type mismatch for <''))"
    "lessOrEqual pf a b = (False, Some (Errorf ''type mismatch for <=''))"
    by (auto simp: greater_any_def greaterOrEqual_def less_any_def lessOrEqual_def
        split: option.splits)
next
  show "toFloat pf v = None \<longleftrightarrow>
        v = VNil \<or> (\<exists>x. v = VBool x) \<or> (\<exists>x. v = VSlice x) \<or> (\<exists>x. v = VMap x) \<or>
        (\<exists>s. v = VString s \<and> pf s = None)"
    by (cases v) (auto split: option.splits)
next
  show "ops (New pf) OperatorGT = Some (greater_any pf)"
    "ops (New pf) OperatorGTE = Some (greaterOrEqual pf)"
    "ops (New pf) OperatorLT = Some (less_any pf)"
    "ops (New pf) OperatorLTE = Some (lessOrEqual pf)"
    by (simp_all add: ops_defs)
qed

theorem ordering_comparators_witness:
  "greater_any (\<lambda>s. None) (VInt 150) (VFloat64 (Float64 False 1029 2533274790395904)) = (True, None)
   \<and> lessOrEqual (\<lambda>s. None) (VInt 150) (VFloat64 (Float64 False 1029 2533274790395904)) = (False, None)
   \<and> greater_any (\<lambda>s. None) (VBool True) (VString ''x'') = (False, Some (Errorf ''type mismatch for >''))
   \<and> less_any (\<lambda>s. None) (VInt 1) (VSlice (Some [])) = (False, Some (Errorf ''type mismatch for <''))"
proof -
  let ?f100 = "Float64 False 1029 2533274790395904"
  let ?f150 = "Float64 False 1030 774056185954304"
  have t: "toFloat (\<lambda>s. None) (VInt 150) = Some ?f150 \<and> toFloat (\<lambda>s. None) (VFloat64 ?f100) = Some ?f100"
    by (simp add: float64_of_int_def Let_def compute_floorlog)
  have c: "f64_gt ?f150 ?f100 \<and> \<not> f64_le ?f150 ?f100"
    by (simp add: f64_gt_def f64_le_def isNaN_def f64_scaled_def)
  have 1: "greater_any (\<lambda>s. None) (VInt 150) (VFloat64 ?f100) = (True, None)
           \<and> lessOrEqual (\<lambda>s. None) (VInt 150) (VFloat64 ?f100) = (False, None)"
    using ordering_comparators [where pf = "\<lambda>s. None" and a = "VInt 150" and b = "VFloat64 ?f100"
        and fa = ?f150 and fb = ?f100] t c
    by simp
  have 2: "greater_any (\<lambda>s. None) (VBool True) (VString ''x'') = (False, Some (Errorf ''type mismatch for >''))"
    using ordering_comparators [where pf = "\<lambda>s. None" and a = "VBool True" and b = "VString ''x''"]
    by simp
  have 3: "less_any (\<lambda>s. None) (VInt 1) (VSlice (Some [])) = (False, Some (Errorf ''type mismatch for <''))"
    using ordering_comparators [where pf = "\<lambda>s. None" and a = "VInt 1" and b = "VSlice (Some [])"]
    by simp
  from 1 2 3 show ?thesis by simp
qed

subsection \<open>Field lookup\<close>

text \<open>
  Claim C6. \<open>getValue\<close> returns a value with \<open>found = true\<close> exactly when the segments of
  the dot-separated path resolve, one after the other, to existing keys of nested maps,
  and the value is the one reached. A nil record gives not-found for every path. If a
  prefix of the segments resolves to a value that is not a map, or to a map without the
  next segment as a key, the answer is not-found.
\<close>

theorem getValue_resolves:
  "(getValue data path = (v, True) \<longleftrightarrow> resolves (VMap data) (strings_Split path CHR ''.'') v)
   \<and> getValue None path = (VNil, False)
   \<and> (strings_Split path CHR ''.'' = pre @ p # post \<and> resolves (VMap data) pre cur \<and>
      (\<forall>m. cur = VMap m \<longrightarrow> map_index m p = None)
      \<longrightarrow> getValue data path = (VNil, False))"
proof (intro conjI impI)
  show "getValue data path = (v, True) \<longleftrightarrow> resolves (VMap data) (strings_Split path CHR ''.'') v"
  proof (cases data)
    case None
    obtain p ps where "strings_Split path CHR ''.'' = p # ps"
      using strings_Split_nonempty [of path "CHR ''.''"] by (cases "strings_Split path CHR ''.''") auto
    with None show ?thesis
      by (auto simp: getValue_def map_index_def elim: resolves_ConsE)
  next
    case (Some kvs)
    then show ?thesis
      by (simp add: getValue_def getValue_loop_resolves)
  qed
next
  show "getValue None path = (VNil, False)"
    by (simp add: getValue_def)
next
  assume h: "strings_Split path CHR ''.'' = pre @ p # post \<and> resolves (VMap data) pre cur \<and>
      (\<forall>m. cur = VMap m \<longrightarrow> map_index m p = None)"
  then have "getValue_loop (VMap data) pre = (cur, True)"
    by (simp add: getValue_loop_resolves)
  then have "getValue_loop (VMap data) (pre @ p # post) = getValue_loop cur (p # post)"
    by (rule getValue_loop_append)
  also from h have "\<dots> = (VNil, False)"
    by (cases cur) auto
  finally show "getValue data path = (VNil, False)"
    using h by (simp add: getValue_def)
qed

theorem getValue_resolves_witness:
  "getValue (Some [(''user'', VMap (Some [(''role'', VString ''admin'')])), (''age'', VInt 17)]) ''user.role''
     = (VString ''admin'', True)
   \<and> resolves (VMap (Some [(''user'', VMap (Some [(''role'', VString ''admin'')])), (''age'', VInt 17)]))
        [''user'', ''role''] (VString ''admin'')
   \<and> getValue (Some [(''user'', VMap (Some [(''role'', VString ''admin'')])), (''age'', VInt 17)]) ''age.years''
     = (VNil, False)
   \<and> getValue (Some [(''user'', VMap (Some [(''role'', VString ''admin'')])), (''age'', VInt 17)]) ''user.name''
     = (VNil, False)"
proof -
  let ?u = "VMap (Some [(''role'', VString ''admin'')])"
  let ?data = "Some [(''user'', ?u), (''age'', VInt 17)]"
  have g: "getValue ?data ''user.role'' = (VString ''admin'', True)"
    by (simp add: getValue_def map_index_def)
  have s: "strings_Split ''user.role'' CHR ''.'' = [''user'', ''role'']"
    by simp
  have r: "resolves (VMap ?data) [''user'', ''role''] (VString ''admin'')"
    using getValue_resolves [where data = ?data and path = "''user.role''" and v = "VString ''admin''"] g s
    by simp
  have r1: "resolves (VMap ?data) [''age''] (VInt 17)"
    by (auto intro!: resolves.intros simp: map_index_def)
  have n1: "getValue ?data ''age.years'' = (VNil, False)"
    using getValue_resolves [where data = ?data and path = "''age.years''" and pre = "[''age'']"
        and p = "''years''" and post = "[]" and cur = "VInt 17"] r1
    by simp
  have r2: "resolves (VMap ?data) [''user''] ?u"
    by (auto intro!: resolves.intros simp: map_index_def)
  have n2: "getValue ?data ''user.name'' = (VNil, False)"
    using getValue_resolves [where data = ?data and path = "''user.name''" and pre = "[''user'']"
        and p = "''name''" and post = "[]" and cur = ?u] r2
    by (simp add: map_index_def)
  from g r n1 n2 show ?thesis by simp
qed

subsection \<open>Membership\<close>

text \<open>
  Claim C8, as stated, gives \<open>in requires a sequence value\<close> as the message of the error
  for a second operand that is not a slice. The message in the code is
  \<open>in requires slice value\<close>.
\<close>

theorem in_wrong_message_counterexample:
  "in_any (\<lambda>s. None) (VString ''x'') (VString ''not-a-sequence'')
     = (False, Some (Errorf ''in requires slice value''))
   \<and> in_any (\<lambda>s. None) (VString ''x'') (VString ''not-a-sequence'')
     \<noteq> (False, Some (Errorf ''in requires a sequence value''))"
  by (simp add: in_any_def)

text \<open>
  Claim C8, amended in the message. When the second operand is not a slice, \<open>in\<close> fails
  with the error \<open>in requires slice value\<close>. When it is a slice, \<open>in\<close> returns, with a nil
  error, whether some item of the slice is \<open>equal\<close> to the first operand; a nil slice has
  no items.
\<close>

theorem in_semantics:
  "((\<forall>sl. b \<noteq> VSlice sl) \<longrightarrow> in_any pf a b = (False, Some (Errorf ''in requires slice value'')))
   \<and> in_any pf a (VSlice (Some items)) = ((\<exists>x\<in>set items. equal_any pf a x), None)
   \<and> in_any pf a (VSlice None) = (False, None)
   \<and> ops (New pf) OperatorIn = Some (in_any pf)"
proof (intro conjI impI)
  assume "\<forall>sl. b \<noteq> VSlice sl"
  then show "in_any pf a b = (False, Some (Errorf ''in requires slice value''))"
    by (cases b) (simp_all add: in_any_def)
next
  show "in_any pf a (VSlice (Some items)) = ((\<exists>x\<in>set items. equal_any pf a x), None)"
    by (simp add: in_any_def in_range_iff)
  show "in_any pf a (VSlice None) = (False, None)"
    by (simp add: in_any_def)
  show "ops (New pf) OperatorIn = Some (in_any pf)"
    by (simp add: ops_defs)
qed

theorem in_semantics_witness:
  "in_any (\<lambda>s. None) (VString ''x'') (VString ''not-a-sequence'')
     = (False, Some (Errorf ''in requires slice value''))
   \<and> (\<exists>x\<in>set [VString ''active'', VString ''pending'']. equal_any (\<lambda>s. None) (VString ''pending'') x)"
proof -
  have "in_any (\<lambda>s. None) (VString ''pending'') (VSlice (Some [VString ''active'', VString ''pending'']))
          = (True, None)"
    by (simp add: in_any_def equal_any_def deepEqual.simps)
  then show ?thesis
    using in_semantics [where pf = "\<lambda>s. None" and a = "VString ''x''" and b = "VString ''not-a-sequence''"]
      in_semantics [where pf = "\<lambda>s. None" and a = "VString ''pending''"
        and items = "[VString ''active'', VString ''pending'']"]
    by simp
qed

subsection \<open>Substrings\<close>

text \<open>
  Claim C9. On two strings \<open>contains\<close> returns, with a nil error, whether the second
  occurs as a contiguous substring of the first. When either operand is not a string it
  returns the type-mismatch error of \<open>contains\<close>, as for \<open>contains(42, "4")\<close>.
\<close>

theorem contains_semantics:
  "contains (VString s) (VString t) = ((\<exists>p q. s = p @ t @ q), None)
   \<and> ((\<forall>s. a \<noteq> VString s) \<or> (\<forall>t. b \<noteq> VString t)
        \<longrightarrow> contains a b = (False, Some (Errorf ''type mismatch for contains'')))
   \<and> ops (New pf) OperatorContains = Some contains"
proof (intro conjI impI)
  show "contains (VString s) (VString t) = ((\<exists>p q. s = p @ t @ q), None)"
    by (simp add: contains_def strings_Contains_iff)
  show "contains a b = (False, Some (Errorf ''type mismatch for contains''))"
    if "(\<forall>s. a \<noteq> VString s) \<or> (\<forall>t. b \<noteq> VString t)"
    using that by (cases a; cases b) (simp_all add: contains_def)
  show "ops (New pf) OperatorContains = Some contains"
    by (simp add: ops_defs)
qed

theorem contains_semantics_witness:
  "contains (VInt 42) (VString ''4'') = (False, Some (Errorf ''type mismatch for contains''))
   \<and> (\<exists>p q. ''golang rules'' = p @ ''go'' @ q)
   \<and> \<not> (\<exists>p q. ''golang rules'' = p @ ''rust'' @ q)"
proof -
  have 1: "contains (VString ''golang rules'') (VString ''go'') = (True, None)"
    by (simp add: contains_def)
  have 2: "contains (VString ''golang rules'') (VString ''rust'') = (False, None)"
    by (simp add: contains_def)
  show ?thesis
    using contains_semantics [where a = "VInt 42" and b = "VString ''4''"]
      contains_semantics [where s = "''golang rules''" and t = "''go''"] 1
      contains_semantics [where s = "''golang rules''" and t = "''rust''"] 2
    by simp
qed

end
